theory Spec2Isabelle
  imports Main "HOL-Library.Word"
begin

unbundle bit_operations_syntax

section \<open>Data model of output.c\<close>

text \<open>
  \<^verbatim>\<open>intval_t\<close> is declared outside output.c (a C \<^verbatim>\<open>long\<close>). It is modelled as
  a mathematical integer, so its arithmetic never overflows: buffer indices are at most
  \<open>bufsize\<close> (16 MiB at most), far inside the range of a \<^verbatim>\<open>long\<close>. The masks
  \<open>& (bufsize - 1)\<close> are written out with \<open>AND\<close>. A C \<^verbatim>\<open>char\<close> (buffer cells, fill
  value, xor value) is a byte.
\<close>

type_synonym intval_t = int
type_synonym byte = "8 word"

text \<open>
  \<^verbatim>\<open>struct segment\<close>. The \<^verbatim>\<open>next\<close>/\<^verbatim>\<open>prev\<close> pointers of the doubly-linked ring
  are represented by the position of a node in the list \<open>ring\<close> below.
\<close>

record segment =
  seg_start :: intval_t
  seg_length :: intval_t

text \<open>
  \<^verbatim>\<open>struct output\<close>. The nested struct \<^verbatim>\<open>segment\<close> is flattened into the fields
  \<open>segment_start\<close>, \<open>segment_max\<close>, \<open>segment_flags\<close> and the ring: \<open>list_head_start\<close>
  and \<open>list_head_length\<close> are the two data fields of the head node, \<open>ring\<close> lists the
  other nodes in \<^verbatim>\<open>next\<close> order from \<^verbatim>\<open>list_head.next\<close> to \<^verbatim>\<open>list_head.prev\<close>.
  The buffer is a function of the index; the allocated cells are \<open>0 .. bufsize - 1\<close>.
\<close>

record output_t =
  bufsize :: intval_t
  buffer :: "int \<Rightarrow> byte"
  write_idx :: intval_t
  lowest_written :: intval_t
  highest_written :: intval_t
  initvalue_set :: bool
  fill_value :: byte
  segment_start :: intval_t
  segment_max :: intval_t
  segment_flags :: nat
  list_head_start :: intval_t
  list_head_length :: intval_t
  ring :: "segment list"
  xor_value :: byte

text \<open>The functions the pointer \<^verbatim>\<open>Output_byte\<close> can hold (null until a pass is initialised).\<close>

datatype output_fn = fn_null | fn_no_output | fn_real_output

text \<open>\<^verbatim>\<open>enum numtype\<close> and the fields of \<^verbatim>\<open>struct number\<close> that output.c touches.\<close>

datatype numtype = NUMTYPE_UNDEFINED | NUMTYPE_INT

record number =
  num_ntype :: numtype
  num_flags :: nat
  num_intval :: intval_t
  num_addr_refs :: int

text \<open>\<^verbatim>\<open>struct vcpu\<close>, as far as output.c uses it.\<close>

record vcpu =
  pc :: number
  add_to_pc :: int

text \<open>
  \<^verbatim>\<open>struct pseudopc\<close>. Contexts are never changed after creation, so the pointer
  \<^verbatim>\<open>outer\<close> is the outer context itself (\<open>None\<close> is the null pointer).
\<close>

datatype pseudopc = Pseudopc (outer: "pseudopc option") (offset: intval_t) (ntype: numtype)

datatype output_format =
  OUTPUT_FORMAT_UNSPECIFIED
| OUTPUT_FORMAT_APPLE
| OUTPUT_FORMAT_CBM
| OUTPUT_FORMAT_PLAIN
| OUTPUT_FORMAT_HEX

text \<open>The fields of the global \<^verbatim>\<open>report\<close> that \<^verbatim>\<open>report_binary\<close> and \<^verbatim>\<open>real_output\<close> use.\<close>

record report =
  fd_open :: bool
  bin_used :: int
  bin_address :: intval_t
  bin_buf :: "int \<Rightarrow> byte"

text \<open>
  Diagnostics go to functions of global.c. What they were called with is kept in the
  order of the calls.
\<close>

datatype diagnostic = Warning string | Error string

text \<open>
  The ways a call can end without returning: a serious error (with its message), the bug
  handler (with its message and code), and a call through a null function pointer.
\<close>

datatype fatal = Serious_error string | Bug string int | Null_call

text \<open>All the file's global variables, plus the list of diagnostics reported so far.\<close>

record acme_state =
  out :: output_t
  Output_byte :: output_fn
  CPU_state :: vcpu
  pseudopc_current_context :: "pseudopc option"
  chosen_format :: output_format
  output_filename :: "string option"
  report_state :: report
  pass_undefined_count :: int
  diagnostics :: "diagnostic list"

text \<open>
  What output.c reads but never writes, all declared in other files: the macro
  \<^verbatim>\<open>FIRST_PASS\<close>, the fields of \<^verbatim>\<open>config\<close>, and the constants of the headers. They
  are parameters of the model.
\<close>

record env =
  FIRST_PASS :: bool
  segment_warning_is_error :: bool
  wanted_version :: int
  VER_SHORTER_SETPC_WARNING :: int
  VER_DISABLED_OBSOLETE_STUFF :: int
  REPORT_BINBUFSIZE :: int
  SEGMENT_FLAG_OVERLAY :: nat
  SEGMENT_FLAG_INVISIBLE :: nat
  MEMINIT_USE_DEFAULT :: int
  FILLVALUE_INITIAL :: int

definition NO_SEGMENT_START :: intval_t where
  "NO_SEGMENT_START = - 1"

section \<open>Diagnostics\<close>

text \<open>
  Modelled from the spec: \<^verbatim>\<open>Throw_warning\<close> and \<^verbatim>\<open>Throw_error\<close> of global.c, which
  is not part of the sources at hand. The spec (section 7) has both report the
  diagnostic and let the run continue.
\<close>

definition Throw_warning :: "string \<Rightarrow> acme_state \<Rightarrow> acme_state" where
  "Throw_warning msg w = w\<lparr>diagnostics := diagnostics w @ [Warning msg]\<rparr>"

definition Throw_error :: "string \<Rightarrow> acme_state \<Rightarrow> acme_state" where
  "Throw_error msg w = w\<lparr>diagnostics := diagnostics w @ [Error msg]\<rparr>"

text \<open>
  Modelled from the spec: \<^verbatim>\<open>Throw_serious_error\<close> and \<^verbatim>\<open>Bug_found\<close> of global.c.
  The spec (section 7) has the first abort the run and the second abort the process;
  neither returns to its caller.
\<close>

definition Throw_serious_error :: "string \<Rightarrow> fatal + 'a" where
  "Throw_serious_error msg = Inl (Serious_error msg)"

definition Bug_found :: "string \<Rightarrow> int \<Rightarrow> fatal + 'a" where
  "Bug_found msg code = Inl (Bug msg code)"

text \<open>
  Modelled from the spec: the text of \<^verbatim>\<open>exception_pc_undefined\<close>, a string constant
  of global.c; the spec calls it the "PC undefined" diagnostic.
\<close>

definition exception_pc_undefined :: string where
  "exception_pc_undefined = ''PC undefined''"

text \<open>Sequencing of steps that may abort: the first abort ends the run.\<close>

definition and_then :: "fatal + 'a \<Rightarrow> ('a \<Rightarrow> fatal + 'b) \<Rightarrow> fatal + 'b" where
  "and_then m f = (case m of Inl e \<Rightarrow> Inl e | Inr x \<Rightarrow> f x)"

section \<open>Fill value and output format\<close>

text \<open>\<^verbatim>\<open>fill_completely\<close>: memset over the allocated cells, then remember the value.\<close>

definition fill_completely :: "byte \<Rightarrow> acme_state \<Rightarrow> acme_state" where
  "fill_completely v w =
     w\<lparr>out := (out w)\<lparr>
          buffer := (\<lambda>i. if 0 \<le> i \<and> i < bufsize (out w) then v else buffer (out w) i),
          fill_value := v\<rparr>\<rparr>"

text \<open>\<^verbatim>\<open>output_initmem\<close>: the pair is the returned int and the state afterwards.\<close>

definition output_initmem :: "byte \<Rightarrow> acme_state \<Rightarrow> int \<times> acme_state" where
  "output_initmem content w =
     (if initvalue_set (out w) then (1, Throw_warning ''Memory already initialised.'' w)
      else
        let w1 = w\<lparr>out := (out w)\<lparr>initvalue_set := True\<rparr>\<rparr>;
            w2 = fill_completely content w1;
            w3 = (if pass_undefined_count w2 = 0 then w2\<lparr>pass_undefined_count := 1\<rparr> else w2)
        in (0, w3))"

text \<open>The predefined nodes of \<^verbatim>\<open>file_format_tree\<close>, in the order of the source.\<close>

definition file_format_tree :: "(string \<times> output_format) list" where
  "file_format_tree =
     [(''apple'', OUTPUT_FORMAT_APPLE),
      (''cbm'', OUTPUT_FORMAT_CBM),
      (''plain'', OUTPUT_FORMAT_PLAIN),
      (''hex'', OUTPUT_FORMAT_HEX)]"

text \<open>
  Modelled from the spec: \<^verbatim>\<open>Tree_easy_scan\<close> of tree.c, which looks the string held in
  the dynamic buffer up in a tree of predefined nodes; the spec has the names matched
  case-sensitively and every other name rejected.
\<close>

definition Tree_easy_scan :: "(string \<times> 'a) list \<Rightarrow> string \<Rightarrow> 'a option" where
  "Tree_easy_scan tree name = map_of tree name"

text \<open>\<^verbatim>\<open>outputfile_set_format\<close>; the first argument is the content of \<^verbatim>\<open>GlobalDynaBuf\<close>.\<close>

definition outputfile_set_format :: "string \<Rightarrow> acme_state \<Rightarrow> int \<times> acme_state" where
  "outputfile_set_format GlobalDynaBuf w =
     (case Tree_easy_scan file_format_tree GlobalDynaBuf of
        None \<Rightarrow> (1, w)
      | Some node_body \<Rightarrow> (0, w\<lparr>chosen_format := node_body\<rparr>))"

definition outputfile_prefer_cbm_format :: "acme_state \<Rightarrow> int \<times> acme_state" where
  "outputfile_prefer_cbm_format w =
     (if chosen_format w \<noteq> OUTPUT_FORMAT_UNSPECIFIED then (0, w)
      else (1, w\<lparr>chosen_format := OUTPUT_FORMAT_CBM\<rparr>))"

text \<open>\<^verbatim>\<open>Output_init\<close>: a fresh buffer of 64 KiB or 16 MiB, filled, and an empty ring.\<close>

definition Output_init :: "env \<Rightarrow> int \<Rightarrow> bool \<Rightarrow> acme_state \<Rightarrow> acme_state" where
  "Output_init e fill_val use_large_buf w =
     (let w1 = w\<lparr>out := (out w)\<lparr>bufsize := (if use_large_buf then 0x1000000 else 0x10000)\<rparr>\<rparr>;
          fv = (if fill_val = MEMINIT_USE_DEFAULT e then FILLVALUE_INITIAL e else fill_val);
          w2 = w1\<lparr>out := (out w1)\<lparr>initvalue_set := (fill_val \<noteq> MEMINIT_USE_DEFAULT e)\<rparr>\<rparr>;
          w3 = fill_completely (word_of_int (fv AND 0xff)) w2
      in w3\<lparr>out := (out w3)\<lparr>ring := []\<rparr>\<rparr>)"

text \<open>
  The values of the global variables when the program starts: static storage is
  zero-initialised, and \<^verbatim>\<open>output_format\<close> has its initialiser.
\<close>

definition static_state :: acme_state where
  "static_state =
     \<lparr>out = \<lparr>bufsize = 0, buffer = (\<lambda>_. 0), write_idx = 0, lowest_written = 0,
             highest_written = 0, initvalue_set = False, fill_value = 0, segment_start = 0,
             segment_max = 0, segment_flags = 0, list_head_start = 0, list_head_length = 0,
             ring = [], xor_value = 0\<rparr>,
      Output_byte = fn_null,
      CPU_state = \<lparr>pc = \<lparr>num_ntype = NUMTYPE_UNDEFINED, num_flags = 0, num_intval = 0,
                          num_addr_refs = 0\<rparr>, add_to_pc = 0\<rparr>,
      pseudopc_current_context = None,
      chosen_format = OUTPUT_FORMAT_UNSPECIFIED,
      output_filename = None,
      report_state = \<lparr>fd_open = False, bin_used = 0, bin_address = 0, bin_buf = (\<lambda>_. 0)\<rparr>,
      pass_undefined_count = 0,
      diagnostics = []\<rparr>"

text \<open>An environment for concrete runs: first pass, warnings stay warnings.\<close>

definition example_env :: env where
  "example_env =
     \<lparr>FIRST_PASS = True, segment_warning_is_error = False, wanted_version = 10,
      VER_SHORTER_SETPC_WARNING = 3, VER_DISABLED_OBSOLETE_STUFF = 7, REPORT_BINBUFSIZE = 9,
      SEGMENT_FLAG_OVERLAY = 1, SEGMENT_FLAG_INVISIBLE = 2, MEMINIT_USE_DEFAULT = - 1,
      FILLVALUE_INITIAL = 0\<rparr>"

section \<open>Segments\<close>

text \<open>
  The loop of \<^verbatim>\<open>find_segment_max\<close>, started at \<^verbatim>\<open>list_head.next\<close>. It stops at the
  first node whose start is larger than \<open>new_pc\<close> (\<open>Some\<close> that node), or at the head
  (\<open>None\<close>): the head is the sentinel, its start was set to \<open>new_pc + 1\<close>, which fails
  the loop test. This is the loop as long as \<open>new_pc + 1\<close> does not overflow
  \<^verbatim>\<open>intval_t\<close>: at the largest \<^verbatim>\<open>intval_t\<close> the sentinel of the C code would not stop
  the walk (the source notes it). Both callers pass at most \<open>bufsize\<close>, and what is
  proved of this function below is stated for such arguments only.
\<close>

fun find_segment_max_walk :: "intval_t \<Rightarrow> segment list \<Rightarrow> segment option" where
  "find_segment_max_walk new_pc [] = None"
| "find_segment_max_walk new_pc (t # ts) =
     (if seg_start t \<le> new_pc then find_segment_max_walk new_pc ts else Some t)"

definition find_segment_max :: "intval_t \<Rightarrow> acme_state \<Rightarrow> acme_state" where
  "find_segment_max new_pc w =
     (let o1 = (out w)\<lparr>list_head_start := new_pc + 1\<rparr> in
      case find_segment_max_walk new_pc (ring o1) of
        None \<Rightarrow> w\<lparr>out := o1\<lparr>segment_max := bufsize o1 - 1\<rparr>\<rparr>
      | Some test_segment \<Rightarrow> w\<lparr>out := o1\<lparr>segment_max := seg_start test_segment - 1\<rparr>\<rparr>)"

text \<open>
  The loop of \<^verbatim>\<open>link_segment\<close>: the new node is linked in front of the node the walk
  stops at. At the head the walk always stops (the sentinel has the new start and the new
  length plus one), and linking in front of the head appends to the ring.
\<close>

fun link_segment_walk :: "segment \<Rightarrow> segment list \<Rightarrow> segment list" where
  "link_segment_walk new_segment [] = [new_segment]"
| "link_segment_walk new_segment (t # ts) =
     (if seg_start t < seg_start new_segment
         \<or> (seg_start t = seg_start new_segment \<and> seg_length t < seg_length new_segment)
      then t # link_segment_walk new_segment ts
      else new_segment # t # ts)"

definition link_segment :: "intval_t \<Rightarrow> intval_t \<Rightarrow> acme_state \<Rightarrow> acme_state" where
  "link_segment start len w =
     w\<lparr>out := (out w)\<lparr>
          list_head_start := start,
          list_head_length := len + 1,
          ring := link_segment_walk \<lparr>seg_start = start, seg_length = len\<rparr> (ring (out w))\<rparr>\<rparr>"

text \<open>
  The loop of \<^verbatim>\<open>check_segment\<close>: \<open>True\<close> when it returns from inside the loop (a node
  contains \<open>new_pc\<close>), \<open>False\<close> when the loop ends.
\<close>

fun check_segment_walk :: "intval_t \<Rightarrow> segment list \<Rightarrow> bool" where
  "check_segment_walk new_pc [] = False"
| "check_segment_walk new_pc (t # ts) =
     (if seg_start t \<le> new_pc
      then (if seg_start t + seg_length t > new_pc then True else check_segment_walk new_pc ts)
      else False)"

definition check_segment :: "env \<Rightarrow> intval_t \<Rightarrow> acme_state \<Rightarrow> acme_state" where
  "check_segment e new_pc w =
     (let w1 = w\<lparr>out := (out w)\<lparr>list_head_start := new_pc + 1, list_head_length := 1\<rparr>\<rparr> in
      if check_segment_walk new_pc (ring (out w1))
      then (if segment_warning_is_error e
            then Throw_error ''Segment starts inside another one, overwriting it.'' w1
            else Throw_warning ''Segment starts inside another one, overwriting it.'' w1)
      else w1)"

section \<open>Writing bytes\<close>

definition report_binary :: "env \<Rightarrow> byte \<Rightarrow> acme_state \<Rightarrow> acme_state" where
  "report_binary e v w =
     (let r = report_state w;
          r1 = (if bin_used r = 0 then r\<lparr>bin_address := write_idx (out w)\<rparr> else r);
          r2 = (if bin_used r1 < REPORT_BINBUFSIZE e
                then r1\<lparr>bin_buf := (bin_buf r1)(bin_used r1 := v), bin_used := bin_used r1 + 1\<rparr>
                else r1)
      in w\<lparr>report_state := r2\<rparr>)"

definition border_crossed :: "env \<Rightarrow> int \<Rightarrow> acme_state \<Rightarrow> fatal + acme_state" where
  "border_crossed e current_offset w =
     (if current_offset \<ge> bufsize (out w) then Throw_serious_error ''Produced too much code.''
      else if FIRST_PASS e then
        (let w1 = (if segment_warning_is_error e
                   then Throw_error ''Segment reached another one, overwriting it.'' w
                   else Throw_warning ''Segment reached another one, overwriting it.'' w)
         in Inr (find_segment_max (current_offset + 1) w1))
      else Inr w)"

definition real_output :: "env \<Rightarrow> intval_t \<Rightarrow> acme_state \<Rightarrow> fatal + acme_state" where
  "real_output e byte w =
     and_then
       (if write_idx (out w) > segment_max (out w) then border_crossed e (write_idx (out w)) w
        else Inr w)
       (\<lambda>w1.
          let w2 = (if write_idx (out w1) < lowest_written (out w1)
                    then w1\<lparr>out := (out w1)\<lparr>lowest_written := write_idx (out w1)\<rparr>\<rparr> else w1);
              w3 = (if write_idx (out w2) > highest_written (out w2)
                    then w2\<lparr>out := (out w2)\<lparr>highest_written := write_idx (out w2)\<rparr>\<rparr> else w2);
              w4 = (if fd_open (report_state w3)
                    then report_binary e (word_of_int (byte AND 0xff)) w3 else w3);
              w5 = w4\<lparr>out := (out w4)\<lparr>
                     buffer := (buffer (out w4))
                       (write_idx (out w4) := word_of_int (byte AND 0xff) XOR xor_value (out w4)),
                     write_idx := write_idx (out w4) + 1\<rparr>\<rparr>
          in Inr (w5\<lparr>CPU_state := (CPU_state w5)\<lparr>add_to_pc := add_to_pc (CPU_state w5) + 1\<rparr>\<rparr>))"

text \<open>
  \<^verbatim>\<open>no_output\<close>, and a call through the pointer \<^verbatim>\<open>Output_byte\<close>. \<^verbatim>\<open>no_output\<close>
  reports, stores \<^verbatim>\<open>real_output\<close> in the pointer and calls through the pointer again.
  Calling through a null pointer crashes the process.
\<close>

function no_output :: "env \<Rightarrow> intval_t \<Rightarrow> acme_state \<Rightarrow> fatal + acme_state"
  and call_Output_byte :: "env \<Rightarrow> intval_t \<Rightarrow> acme_state \<Rightarrow> fatal + acme_state" where
  "no_output e byte w =
     call_Output_byte e byte
       ((Throw_error exception_pc_undefined w)\<lparr>Output_byte := fn_real_output\<rparr>)"
| "call_Output_byte e byte w =
     (case Output_byte w of
        fn_null \<Rightarrow> Inl Null_call
      | fn_no_output \<Rightarrow> no_output e byte w
      | fn_real_output \<Rightarrow> real_output e byte w)"
  by pat_completeness auto
termination
  by (relation "measure (\<lambda>x. case x of
         Inl (e, b, w) \<Rightarrow> 1
       | Inr (e, b, w) \<Rightarrow> (if Output_byte w = fn_no_output then 2 else 0))")
     (auto simp: Throw_error_def)

text \<open>A sequence of calls through the pointer, one per byte; the first abort ends it.\<close>

fun Output_bytes :: "env \<Rightarrow> intval_t list \<Rightarrow> acme_state \<Rightarrow> fatal + acme_state" where
  "Output_bytes e [] w = Inr w"
| "Output_bytes e (b # bs) w = and_then (call_Output_byte e b w) (Output_bytes e bs)"

text \<open>
  The buffer indices the calls of such a sequence store to: each call that returns has
  stored at the write index it was entered with (\<^verbatim>\<open>buffer[write_idx++]\<close>; nothing before
  the store changes \<^verbatim>\<open>write_idx\<close>).
\<close>

fun stored_indices :: "env \<Rightarrow> intval_t list \<Rightarrow> acme_state \<Rightarrow> int list" where
  "stored_indices e [] w = []"
| "stored_indices e (b # bs) w =
     (case call_Output_byte e b w of
        Inl _ \<Rightarrow> []
      | Inr w1 \<Rightarrow> write_idx (out w) # stored_indices e bs w1)"

section \<open>Passes, segments and the program counter\<close>

definition Output_passinit :: "acme_state \<Rightarrow> acme_state" where
  "Output_passinit w =
     w\<lparr>out := (out w)\<lparr>
          lowest_written := bufsize (out w) - 1,
          highest_written := 0,
          write_idx := 0,
          segment_start := NO_SEGMENT_START,
          segment_max := bufsize (out w) - 1,
          segment_flags := 0,
          xor_value := 0\<rparr>,
       Output_byte := fn_no_output,
       CPU_state := (CPU_state w)\<lparr>
          pc := (pc (CPU_state w))\<lparr>num_ntype := NUMTYPE_UNDEFINED, num_flags := 0, num_intval := 0\<rparr>,
          add_to_pc := 0\<rparr>,
       pseudopc_current_context := None\<rparr>"

text \<open>\<^verbatim>\<open>Output_end_segment\<close>; the line it prints at high verbosity is not modelled.\<close>

definition Output_end_segment :: "env \<Rightarrow> acme_state \<Rightarrow> acme_state" where
  "Output_end_segment e w =
     (if \<not> FIRST_PASS e then w
      else if segment_start (out w) = NO_SEGMENT_START then w
      else if segment_flags (out w) AND SEGMENT_FLAG_INVISIBLE e \<noteq> 0 then w
      else
        let amount = write_idx (out w) - segment_start (out w) in
        if amount = 0 then w else link_segment (segment_start (out w)) amount w)"

definition Output_start_segment :: "env \<Rightarrow> intval_t \<Rightarrow> nat \<Rightarrow> acme_state \<Rightarrow> acme_state" where
  "Output_start_segment e address_change seg_flags w =
     (let w1 = Output_end_segment e w;
          idx = (write_idx (out w1) + address_change) AND (bufsize (out w1) - 1);
          w2 = w1\<lparr>out := (out w1)\<lparr>write_idx := idx, segment_start := idx,
                                    segment_flags := seg_flags\<rparr>,
                  Output_byte := fn_real_output\<rparr>
      in if FIRST_PASS e then
           (let w3 = (if seg_flags AND SEGMENT_FLAG_OVERLAY e = 0
                      then check_segment e (segment_start (out w2)) w2 else w2)
            in find_segment_max (segment_start (out w3)) w3)
         else w2)"

section \<open>Offset assembly\<close>


definition pseudopc_end :: "env \<Rightarrow> acme_state \<Rightarrow> fatal + acme_state" where
  "pseudopc_end e w =
     (case pseudopc_current_context w of
        None \<Rightarrow>
          (if wanted_version e \<ge> VER_DISABLED_OBSOLETE_STUFF e
           then Bug_found ''ClosingUnopenedPseudopcBlock'' 0
           else Inr w)
      | Some c \<Rightarrow>
          Inr (w\<lparr>CPU_state := (CPU_state w)\<lparr>
                   pc := (pc (CPU_state w))\<lparr>
                     num_intval := (num_intval (pc (CPU_state w)) - offset c)
                                     AND (bufsize (out w) - 1),
                     num_ntype := ntype c\<rparr>\<rparr>,
                 pseudopc_current_context := outer c\<rparr>))"

text \<open>The length of the chain of contexts: what the loop of \<^verbatim>\<open>pseudopc_end_all\<close> consumes.\<close>

fun chain_depth :: "pseudopc option \<Rightarrow> nat" where
  "chain_depth None = 0"
| "chain_depth (Some (Pseudopc o' d t)) = Suc (chain_depth o')"

function pseudopc_end_all :: "env \<Rightarrow> acme_state \<Rightarrow> fatal + acme_state" where
  "pseudopc_end_all e w =
     (if pseudopc_current_context w \<noteq> None
      then (case pseudopc_end e w of Inl f \<Rightarrow> Inl f | Inr w1 \<Rightarrow> pseudopc_end_all e w1)
      else Inr w)"
  by pat_completeness auto
termination
proof (relation "measure (\<lambda>(e, w). chain_depth (pseudopc_current_context w))")
  show "wf (measure (\<lambda>(e, w). chain_depth (pseudopc_current_context w)))"
    by simp
next
  fix e w w1
  assume "pseudopc_current_context w \<noteq> None" and "pseudopc_end e w = Inr w1"
  then obtain c where c: "pseudopc_current_context w = Some c"
    and w1: "pseudopc_current_context w1 = outer c"
    by (auto simp: pseudopc_end_def)
  then show "((e, w1), (e, w)) \<in> measure (\<lambda>(e, w). chain_depth (pseudopc_current_context w))"
    by (cases c) simp
qed

text \<open>\<^verbatim>\<open>vcpu_set_pc\<close>, with its two legacy branches that close all offset assembly.\<close>

definition vcpu_set_pc :: "env \<Rightarrow> intval_t \<Rightarrow> nat \<Rightarrow> acme_state \<Rightarrow> fatal + acme_state" where
  "vcpu_set_pc e new_pc seg_flags w =
     and_then
       (if pseudopc_current_context w \<noteq> None then
          (if wanted_version e < VER_SHORTER_SETPC_WARNING e then
             pseudopc_end_all e
               (Throw_warning
                  ''Offset assembly still active at end of segment. Switched it off.'' w)
           else if wanted_version e < VER_DISABLED_OBSOLETE_STUFF e then
             pseudopc_end_all e
               (Throw_warning ''Offset assembly still active at end of segment.'' w)
           else Inr w)
        else Inr w)
       (\<lambda>w1.
          let pc_change = new_pc - num_intval (pc (CPU_state w1));
              w2 = w1\<lparr>CPU_state := (CPU_state w1)\<lparr>
                      pc := (pc (CPU_state w1))\<lparr>num_intval := new_pc, num_ntype := NUMTYPE_INT,
                                                num_addr_refs := 1\<rparr>\<rparr>\<rparr>
          in Inr (Output_start_segment e pc_change seg_flags w2))"

definition vcpu_end_statement :: "acme_state \<Rightarrow> acme_state" where
  "vcpu_end_statement w =
     w\<lparr>CPU_state := (CPU_state w)\<lparr>
          pc := (pc (CPU_state w))\<lparr>
            num_intval := (num_intval (pc (CPU_state w)) + add_to_pc (CPU_state w))
                            AND (bufsize (out w) - 1)\<rparr>,
          add_to_pc := 0\<rparr>\<rparr>"

section \<open>Intel HEX\<close>

text \<open>
  What \<^verbatim>\<open>fprintf\<close> prints for \<^verbatim>\<open>%02x\<close> and \<^verbatim>\<open>%04x\<close>: the unsigned value in base 16
  with the digits \<^verbatim>\<open>0123456789abcdef\<close>, padded with zeros on the left to the given
  width, never truncated.
\<close>

definition hex_digit :: "nat \<Rightarrow> char" where
  "hex_digit d = ''0123456789abcdef'' ! d"

function to_hex :: "nat \<Rightarrow> string" where
  "to_hex n = (if n < 16 then [hex_digit n] else to_hex (n div 16) @ [hex_digit (n mod 16)])"
  by pat_completeness auto
termination
  by (relation "measure id") auto

definition printf_x :: "nat \<Rightarrow> nat \<Rightarrow> string" where
  "printf_x width v = replicate (width - length (to_hex v)) (CHR ''0'') @ to_hex v"

text \<open>An \<^verbatim>\<open>int\<close> argument of \<^verbatim>\<open>%x\<close> is read as an \<^verbatim>\<open>unsigned\<close> of 32 bits.\<close>

definition as_unsigned :: "int \<Rightarrow> nat" where
  "as_unsigned x = nat (x mod 2 ^ 32)"

text \<open>
  The loop of \<^verbatim>\<open>outputHexChunk\<close>: the first number is how many rounds are left
  (\<^verbatim>\<open>size - i\<close>), the pair is \<^verbatim>\<open>checksum\<close> and the text written to the file so far.
\<close>

fun outputHexChunk_loop :: "output_t \<Rightarrow> int \<Rightarrow> nat \<Rightarrow> int \<Rightarrow> int \<times> string \<Rightarrow> int \<times> string" where
  "outputHexChunk_loop ob start 0 i (checksum, fd) = (checksum, fd)"
| "outputHexChunk_loop ob start (Suc left) i (checksum, fd) =
     outputHexChunk_loop ob start left (i + 1)
       (checksum + uint (buffer ob (start + i)),
        fd @ printf_x 2 (unat (buffer ob (start + i))))"

text \<open>
  \<^verbatim>\<open>outputHexChunk\<close>: \<open>sz\<close> (the parameter \<^verbatim>\<open>size\<close>) is an \<^verbatim>\<open>unsigned char\<close>, \<open>fd\<close> the text of the file so
  far; the result is the text of the file afterwards.
\<close>

definition outputHexChunk :: "output_t \<Rightarrow> int \<Rightarrow> nat \<Rightarrow> string \<Rightarrow> string" where
  "outputHexChunk ob start sz fd =
     (let addr = start;
          fd1 = fd @ '':'' @ printf_x 2 sz @ printf_x 4 (as_unsigned addr) @ ''00'';
          checksum = int sz + (drop_bit 8 (addr AND 0xff00)) mod 256 + (addr AND 0xff) mod 256;
          (checksum1, fd2) = outputHexChunk_loop ob start sz 0 (checksum, fd1);
          checksum2 = NOT checksum1 + 1
      in fd2 @ printf_x 2 (as_unsigned (checksum2 AND 0xff)) @ [CHR 0x0A])"

definition maxEmpty :: int where
  "maxEmpty = 32"

definition maxChunkSize :: int where
  "maxChunkSize = 64"

text \<open>
  The loop of \<^verbatim>\<open>outputHex\<close>. Its only effect is to call \<^verbatim>\<open>outputHexChunk\<close>; \<open>calls\<close>
  lists the arguments of the calls made so far, in order. The result is \<^verbatim>\<open>chunkStart\<close>,
  \<^verbatim>\<open>i\<close> and the calls when the loop ends. The size passed to \<^verbatim>\<open>outputHexChunk\<close> is
  converted to \<^verbatim>\<open>unsigned char\<close>.
\<close>

function outputHex_loop ::
  "output_t \<Rightarrow> int \<Rightarrow> int \<Rightarrow> int \<Rightarrow> int \<Rightarrow> (int \<times> nat) list \<Rightarrow> int \<times> int \<times> (int \<times> nat) list" where
  "outputHex_loop ob amount chunkStart emptyCount i calls =
     (if i < amount then
        (if fill_value ob \<noteq> 0 \<and> buffer ob i = fill_value ob
         then outputHex_loop ob amount chunkStart (emptyCount + 1) (i + 1) calls
         else
           (let chunkSize = (if emptyCount > maxEmpty then i - chunkStart - emptyCount
                             else i - chunkStart);
                emptyCount1 = (if emptyCount > maxEmpty then emptyCount else 0)
            in if emptyCount1 \<noteq> 0 \<or> chunkSize \<ge> maxChunkSize
               then
                 (let bytesToWrite = (if chunkSize > maxChunkSize then maxChunkSize else chunkSize)
                  in outputHex_loop ob amount (i - (chunkSize - bytesToWrite)) 0 (i + 1)
                       (calls @ [(chunkStart, nat (bytesToWrite mod 256))]))
               else outputHex_loop ob amount chunkStart 0 (i + 1) calls))
      else (chunkStart, i, calls))"
  by pat_completeness auto
termination
  by (relation "measure (\<lambda>(ob, amount, chunkStart, emptyCount, i, calls). nat (amount - i))") auto

text \<open>The calls of \<^verbatim>\<open>outputHexChunk\<close> that \<^verbatim>\<open>outputHex\<close> makes, the one after the loop included.\<close>

definition outputHex_calls :: "output_t \<Rightarrow> intval_t \<Rightarrow> intval_t \<Rightarrow> (int \<times> nat) list" where
  "outputHex_calls ob start amount =
     (case outputHex_loop ob amount start 0 start [] of
        (chunkStart, i, calls) \<Rightarrow>
          (let chunkSize = nat ((i - chunkStart) mod 256)
           in if chunkSize \<noteq> 0 then calls @ [(chunkStart, chunkSize)] else calls))"

text \<open>\<^verbatim>\<open>outputHex\<close>: the records of the calls, then the end-of-file record.\<close>

definition outputHex :: "output_t \<Rightarrow> intval_t \<Rightarrow> intval_t \<Rightarrow> string \<Rightarrow> string" where
  "outputHex ob start amount fd =
     foldl (\<lambda>f (chunkStart, sz). outputHexChunk ob chunkStart sz f) fd
       (outputHex_calls ob start amount)
     @ '':00000001ff''"

text \<open>The buffer cells a call of \<^verbatim>\<open>outputHexChunk\<close> reads, in the order it reads them.\<close>

definition chunk_cells :: "int \<times> nat \<Rightarrow> int list" where
  "chunk_cells c = map (\<lambda>k. fst c + int k) [0..<snd c]"

section \<open>Order of the ring and the next recorded start\<close>

text \<open>
  The order \<^verbatim>\<open>link_segment\<close> keeps the ring in: by start, and by length among equal
  starts.
\<close>

definition seg_le :: "segment \<Rightarrow> segment \<Rightarrow> bool" where
  "seg_le a b =
     (seg_start a < seg_start b \<or> (seg_start a = seg_start b \<and> seg_length a \<le> seg_length b))"

definition ring_sorted :: "output_t \<Rightarrow> bool" where
  "ring_sorted ob = sorted_wrt seg_le (ring ob)"

text \<open>
  In the words of the spec: the smallest recorded start strictly greater than the
  address, if there is one.
\<close>

definition next_start :: "intval_t \<Rightarrow> segment list \<Rightarrow> intval_t option" where
  "next_start a segs =
     (let above = filter (\<lambda>s. a < s) (map seg_start segs)
      in if above = [] then None else Some (Min (set above)))"

section \<open>Nested offset assembly\<close>





section \<open>Counting the reports of an undefined program counter\<close>

definition pc_undefined_reports :: "acme_state \<Rightarrow> nat" where
  "pc_undefined_reports w = count_list (diagnostics w) (Error exception_pc_undefined)"

section \<open>States in which bytes can be written\<close>

text \<open>No recorded segment starts beyond the end of the buffer.\<close>

definition ring_within :: "output_t \<Rightarrow> bool" where
  "ring_within ob = (\<forall>s\<in>set (ring ob). seg_start s \<le> bufsize ob)"

text \<open>
  Output is enabled, the segment limit is inside the buffer, and so are the recorded
  starts (from which \<^verbatim>\<open>find_segment_max\<close> computes later limits).
\<close>

definition writable :: "acme_state \<Rightarrow> bool" where
  "writable w = (Output_byte w = fn_real_output
                 \<and> segment_max (out w) \<le> bufsize (out w) - 1
                 \<and> ring_within (out w))"

section \<open>The text of a data record\<close>

text \<open>
  In the words of the spec (section 6): a data record is the line \<^verbatim>\<open>:LLAAAATT<data>CC\<close>
  with \<open>LL\<close> the byte count, \<open>AAAA\<close> the address, \<open>TT\<close> = 00, the data bytes as two
  digits each, and \<open>CC\<close> the checksum that brings the sum of count, address bytes and
  data to 0 modulo 256. The digits are those \<^verbatim>\<open>%02x\<close> and \<^verbatim>\<open>%04x\<close> print.
\<close>

definition record_data :: "output_t \<Rightarrow> int \<times> nat \<Rightarrow> string" where
  "record_data ob c = concat (map (\<lambda>i. printf_x 2 (unat (buffer ob i))) (chunk_cells c))"

definition record_checksum :: "output_t \<Rightarrow> int \<times> nat \<Rightarrow> nat" where
  "record_checksum ob c =
     nat ((- (int (snd c) + drop_bit 8 (fst c AND 0xff00) mod 256 + (fst c AND 0xff) mod 256
              + sum_list (map (\<lambda>i. uint (buffer ob i)) (chunk_cells c)))) mod 256)"

definition hex_data_record :: "output_t \<Rightarrow> int \<times> nat \<Rightarrow> string" where
  "hex_data_record ob c =
     '':'' @ printf_x 2 (snd c) @ printf_x 4 (as_unsigned (fst c)) @ ''00''
       @ record_data ob c @ printf_x 2 (record_checksum ob c) @ [CHR 0x0A]"

section \<open>Concrete states\<close>

text \<open>The state at the start of a pass of a run with the small buffer and the default fill value.\<close>

definition example_state :: acme_state where
  "example_state = Output_passinit (Output_init example_env (- 1) False static_state)"

text \<open>An environment that asks for a version older than \<^verbatim>\<open>VER_DISABLED_OBSOLETE_STUFF\<close>.\<close>

definition legacy_env :: env where
  "legacy_env = example_env\<lparr>wanted_version := 5\<rparr>"

text \<open>
  The state at the start of a pass of a run that was given the fill value 0x33 at start-up
  (\<^verbatim>\<open>Output_init\<close> with a fill value other than \<^verbatim>\<open>MEMINIT_USE_DEFAULT\<close>).
\<close>

definition preset_state :: acme_state where
  "preset_state = Output_passinit (Output_init example_env 0x33 False static_state)"

text \<open>Three segments recorded out of order: at 0x2000, at 0x1000 and at 0x3000.\<close>

definition three_segments_state :: acme_state where
  "three_segments_state =
     link_segment 0x3000 0x10 (link_segment 0x1000 0x20 (link_segment 0x2000 0x10 example_state))"

text \<open>A buffer with the bytes 0x01 and 0x02 in its first two cells.\<close>

definition example_record_output :: output_t where
  "example_record_output = (out static_state)\<lparr>buffer := (\<lambda>_. 0)(0 := 0x01, 1 := 0x02)\<rparr>"

text \<open>A buffer of zero bytes whose fill value is zero.\<close>

definition zero_output :: output_t where
  "zero_output = (out static_state)\<lparr>buffer := (\<lambda>_. 0), fill_value := 0\<rparr>"

section \<open>The memory-initialisation directive\<close>

text \<open>
  Claim C8, as stated, fails when a fill value was already set before the first of the
  two calls: after \<^verbatim>\<open>Output_init\<close> with the fill value 0x33 the flag \<^verbatim>\<open>initvalue_set\<close>
  is set, both calls of \<^verbatim>\<open>output_initmem\<close> (with 0x11, then with 0x22) return 1, and the
  fill value is still 0x33, not the first call's 0x11.
\<close>

theorem initmem_preset_counterexample:
  "initvalue_set (out preset_state)
   \<and> fst (output_initmem 0x11 preset_state) = 1
   \<and> fst (output_initmem 0x22 (snd (output_initmem 0x11 preset_state))) = 1
   \<and> fill_value (out (snd (output_initmem 0x22 (snd (output_initmem 0x11 preset_state))))) = 0x33"
  by (simp add: preset_state_def output_initmem_def Output_passinit_def Output_init_def Let_def
      fill_completely_def Throw_warning_def example_env_def static_state_def)

text \<open>
  Claim C8, amended. Two calls of \<^verbatim>\<open>output_initmem\<close> in a row, with any two values: the
  second call returns 1, reports the warning "Memory already initialised." and changes
  nothing else, so the fill value is the one the first call left. When no fill value was
  set before the first call, that call returns 0 and the fill value after both calls is
  its argument.
\<close>

theorem initmem_twice:
  "output_initmem v1 w = (r1, w1) \<Longrightarrow> output_initmem v2 w1 = (r2, w2) \<Longrightarrow>
     r2 = 1
     \<and> w2 = Throw_warning ''Memory already initialised.'' w1
     \<and> diagnostics w2 = diagnostics w1 @ [Warning ''Memory already initialised.'']
     \<and> out w2 = out w1
     \<and> fill_value (out w2) = fill_value (out w1)
     \<and> (\<not> initvalue_set (out w) \<longrightarrow> r1 = 0 \<and> fill_value (out w2) = v1)"
  by (auto simp: output_initmem_def Let_def fill_completely_def Throw_warning_def
      split: if_splits)

theorem initmem_twice_witness:
  "fst (output_initmem 0x22 (snd (output_initmem 0x11 example_state))) = 1
   \<and> fill_value (out (snd (output_initmem 0x22 (snd (output_initmem 0x11 example_state))))) = 0x11
   \<and> diagnostics (snd (output_initmem 0x22 (snd (output_initmem 0x11 example_state))))
       = [Warning ''Memory already initialised.'']"
proof -
  have a: "\<not> initvalue_set (out example_state)"
    by (simp add: example_state_def Output_passinit_def Output_init_def Let_def
        fill_completely_def example_env_def static_state_def)
  have d: "diagnostics (snd (output_initmem 0x11 example_state)) = []"
    by (simp add: output_initmem_def a Let_def fill_completely_def example_state_def
        Output_passinit_def Output_init_def example_env_def static_state_def)
  show ?thesis
    using initmem_twice [OF prod.collapse [symmetric] prod.collapse [symmetric],
        of "0x22" "0x11" example_state] a d
    by auto
qed

section \<open>Selecting the output format\<close>

text \<open>
  Claim C9, as stated, fails: \<^verbatim>\<open>outputfile_set_format\<close> has no test for a format chosen
  earlier. After "plain" has been selected, selecting "cbm" returns 0, reports nothing
  and replaces the format.
\<close>

theorem set_format_twice_counterexample:
  "fst (outputfile_set_format ''cbm'' (snd (outputfile_set_format ''plain'' static_state))) = 0
   \<and> chosen_format (snd (outputfile_set_format ''plain'' static_state)) = OUTPUT_FORMAT_PLAIN
   \<and> chosen_format
        (snd (outputfile_set_format ''cbm'' (snd (outputfile_set_format ''plain'' static_state))))
       = OUTPUT_FORMAT_CBM
   \<and> diagnostics
        (snd (outputfile_set_format ''cbm'' (snd (outputfile_set_format ''plain'' static_state))))
       = []"
  by (simp add: outputfile_set_format_def Tree_easy_scan_def file_format_tree_def static_state_def)

text \<open>
  Claim C9, amended. Selecting one of the names plain, cbm, apple, hex returns 0 and makes
  that format the chosen one whatever was chosen before, with no diagnostic (the last
  selection wins); any other name returns 1 and changes nothing. The implicit preference
  for CBM changes the format only when it is still unspecified: then it returns 1 and
  chooses CBM, otherwise it returns 0 and changes nothing.
\<close>

theorem format_selection:
  "outputfile_set_format ''plain'' w = (0, w\<lparr>chosen_format := OUTPUT_FORMAT_PLAIN\<rparr>)
   \<and> outputfile_set_format ''cbm'' w = (0, w\<lparr>chosen_format := OUTPUT_FORMAT_CBM\<rparr>)
   \<and> outputfile_set_format ''apple'' w = (0, w\<lparr>chosen_format := OUTPUT_FORMAT_APPLE\<rparr>)
   \<and> outputfile_set_format ''hex'' w = (0, w\<lparr>chosen_format := OUTPUT_FORMAT_HEX\<rparr>)
   \<and> (name \<notin> {''plain'', ''cbm'', ''apple'', ''hex''} \<longrightarrow> outputfile_set_format name w = (1, w))
   \<and> (chosen_format w \<noteq> OUTPUT_FORMAT_UNSPECIFIED \<longrightarrow> outputfile_prefer_cbm_format w = (0, w))
   \<and> (chosen_format w = OUTPUT_FORMAT_UNSPECIFIED \<longrightarrow>
        outputfile_prefer_cbm_format w = (1, w\<lparr>chosen_format := OUTPUT_FORMAT_CBM\<rparr>))"
  by (simp add: outputfile_set_format_def Tree_easy_scan_def file_format_tree_def
      outputfile_prefer_cbm_format_def)

theorem format_selection_witness:
  "outputfile_set_format ''Plain'' static_state = (1, static_state)
   \<and> outputfile_prefer_cbm_format static_state
       = (1, static_state\<lparr>chosen_format := OUTPUT_FORMAT_CBM\<rparr>)
   \<and> outputfile_prefer_cbm_format (static_state\<lparr>chosen_format := OUTPUT_FORMAT_HEX\<rparr>)
       = (0, static_state\<lparr>chosen_format := OUTPUT_FORMAT_HEX\<rparr>)"
proof -
  have u: "chosen_format static_state = OUTPUT_FORMAT_UNSPECIFIED"
    by (simp add: static_state_def)
  have n: "''Plain'' \<notin> {''plain'', ''cbm'', ''apple'', ''hex''}"
    by simp
  have h: "chosen_format (static_state\<lparr>chosen_format := OUTPUT_FORMAT_HEX\<rparr>)
             \<noteq> OUTPUT_FORMAT_UNSPECIFIED"
    by simp
  show ?thesis
    using format_selection [of static_state "''Plain''"]
      format_selection [of "static_state\<lparr>chosen_format := OUTPUT_FORMAT_HEX\<rparr>" "''Plain''"]
      u n h
    by blast
qed

section \<open>Closing offset assembly that is not open\<close>

text \<open>
  Claim C6. \<^verbatim>\<open>pseudopc_end\<close> with no context active: when the wanted version is at
  least \<^verbatim>\<open>VER_DISABLED_OBSOLETE_STUFF\<close> it ends in the bug handler (which aborts the
  process) with the message "ClosingUnopenedPseudopcBlock"; when the wanted version is
  older it returns with the whole state, program counter and context chain included,
  unchanged.
\<close>

theorem pseudopc_end_no_context:
  "pseudopc_current_context w = None \<Longrightarrow>
     (wanted_version e \<ge> VER_DISABLED_OBSOLETE_STUFF e \<longrightarrow>
        pseudopc_end e w = Inl (Bug ''ClosingUnopenedPseudopcBlock'' 0))
     \<and> (wanted_version e < VER_DISABLED_OBSOLETE_STUFF e \<longrightarrow> pseudopc_end e w = Inr w)"
  by (simp add: pseudopc_end_def Bug_found_def)

theorem pseudopc_end_no_context_witness:
  "pseudopc_end example_env example_state = Inl (Bug ''ClosingUnopenedPseudopcBlock'' 0)
   \<and> pseudopc_end legacy_env example_state = Inr example_state"
proof -
  have c: "pseudopc_current_context example_state = None"
    by (simp add: example_state_def Output_passinit_def)
  have v: "wanted_version example_env \<ge> VER_DISABLED_OBSOLETE_STUFF example_env"
    by (simp add: example_env_def)
  have l: "wanted_version legacy_env < VER_DISABLED_OBSOLETE_STUFF legacy_env"
    by (simp add: legacy_env_def example_env_def)
  show ?thesis
    using pseudopc_end_no_context [OF c, of example_env]
      pseudopc_end_no_context [OF c, of legacy_env] v l
    by blast
qed

section \<open>The upper bound of the live segment\<close>

lemma set_link_segment_walk: "set (link_segment_walk n xs) = insert n (set xs)"
  by (induction xs) auto

lemma sorted_link_segment_walk:
  "sorted_wrt seg_le xs \<Longrightarrow> sorted_wrt seg_le (link_segment_walk n xs)"
  by (induction xs) (auto simp: set_link_segment_walk seg_le_def)

text \<open>The ring starts sorted and every \<^verbatim>\<open>link_segment\<close> keeps it sorted.\<close>

lemma ring_sorted_Output_init: "ring_sorted (out (Output_init e v l w))"
  by (simp add: Output_init_def Let_def fill_completely_def ring_sorted_def)

lemma ring_sorted_link_segment:
  "ring_sorted (out w) \<Longrightarrow> ring_sorted (out (link_segment s l w))"
  by (simp add: ring_sorted_def link_segment_def sorted_link_segment_walk)

lemma find_segment_max_walk_None:
  "find_segment_max_walk a xs = None \<Longrightarrow> filter (\<lambda>s. a < s) (map seg_start xs) = []"
  by (induction xs) (auto split: if_splits)

lemma find_segment_max_walk_Some:
  "sorted_wrt seg_le xs \<Longrightarrow> find_segment_max_walk a xs = Some t \<Longrightarrow>
     filter (\<lambda>s. a < s) (map seg_start xs) \<noteq> [] \<and>
     Min (set (filter (\<lambda>s. a < s) (map seg_start xs))) = seg_start t"
proof (induction xs)
  case Nil
  then show ?case by simp
next
  case (Cons x xs)
  show ?case
  proof (cases "seg_start x \<le> a")
    case True
    with Cons show ?thesis by simp
  next
    case False
    then have t: "t = x" using Cons.prems by simp
    have "\<forall>y\<in>set xs. seg_start x \<le> seg_start y"
      using Cons.prems(1) by (auto simp: seg_le_def)
    then have "\<forall>s \<in> set (filter (\<lambda>s. a < s) (map seg_start (x # xs))). seg_start x \<le> s"
      using False by auto
    moreover have "seg_start x \<in> set (filter (\<lambda>s. a < s) (map seg_start (x # xs)))"
      using False by simp
    ultimately have "Min (set (filter (\<lambda>s. a < s) (map seg_start (x # xs)))) = seg_start x"
      by (intro Min_eqI) auto
    then show ?thesis using False t by simp
  qed
qed

text \<open>
  Claim C4. On a ring sorted by start (and by length among equal starts),
  \<^verbatim>\<open>find_segment_max\<close> at any address from 0 to \<^verbatim>\<open>bufsize\<close> (the arguments its callers
  pass), with a buffer of at most 16 MiB, sets \<^verbatim>\<open>segment.max\<close> to one less than the
  smallest recorded start strictly greater than the address, and to \<^verbatim>\<open>bufsize - 1\<close> when no
  recorded start is greater. Within these bounds the address plus one fits in every C
  \<^verbatim>\<open>long\<close>, so the sentinel ends the walk in the code as it does here.
\<close>

theorem find_segment_max_next_start:
  "ring_sorted (out w) \<Longrightarrow> 0 \<le> a \<Longrightarrow> a \<le> bufsize (out w) \<Longrightarrow>
   bufsize (out w) \<le> 0x1000000 \<Longrightarrow>
     segment_max (out (find_segment_max a w)) =
       (case next_start a (ring (out w)) of
          None \<Rightarrow> bufsize (out w) - 1
        | Some s \<Rightarrow> s - 1)"
  by (auto simp: find_segment_max_def ring_sorted_def next_start_def Let_def
      split: option.splits
      dest: find_segment_max_walk_None find_segment_max_walk_Some)

theorem find_segment_max_next_start_witness:
  "map seg_start (ring (out three_segments_state)) = [0x1000, 0x2000, 0x3000]
   \<and> segment_max (out (find_segment_max 0x1005 three_segments_state)) = 0x1FFF
   \<and> segment_max (out (find_segment_max 0x3005 three_segments_state)) = 0xFFFF"
proof -
  have r: "ring (out three_segments_state) =
             [\<lparr>seg_start = 0x1000, seg_length = 0x20\<rparr>, \<lparr>seg_start = 0x2000, seg_length = 0x10\<rparr>,
              \<lparr>seg_start = 0x3000, seg_length = 0x10\<rparr>]"
    by (simp add: three_segments_state_def link_segment_def example_state_def
        Output_passinit_def Output_init_def Let_def fill_completely_def)
  have b: "bufsize (out three_segments_state) = 0x10000"
    by (simp add: three_segments_state_def link_segment_def example_state_def
        Output_passinit_def Output_init_def Let_def fill_completely_def)
  have s: "ring_sorted (out three_segments_state)"
    by (simp add: ring_sorted_def r seg_le_def)
  have k: "bufsize (out three_segments_state) \<le> 0x1000000"
    and a1: "(0::int) \<le> 0x1005" "0x1005 \<le> bufsize (out three_segments_state)"
    and a2: "(0::int) \<le> 0x3005" "0x3005 \<le> bufsize (out three_segments_state)"
    by (simp_all add: b)
  show ?thesis
    using find_segment_max_next_start [OF s a1 k] find_segment_max_next_start [OF s a2 k]
    by (simp add: r b next_start_def)
qed

section \<open>Intel HEX records\<close>

lemma int_and_255: "(x::int) AND 0xff = x mod 256"
  using take_bit_eq_mask [of 8 x] by (simp add: take_bit_eq_mod mask_eq_exp_minus_1)

lemma outputHexChunk_loop_eq:
  "outputHexChunk_loop ob start n i (cs, fd) =
     (cs + sum_list (map (\<lambda>k. uint (buffer ob (start + i + int k))) [0..<n]),
      fd @ concat (map (\<lambda>k. printf_x 2 (unat (buffer ob (start + i + int k)))) [0..<n]))"
proof (induction n arbitrary: i cs fd)
  case 0
  then show ?case by simp
next
  case (Suc n)
  have m: "[0..<Suc n] = 0 # map Suc [0..<n]"
    by (simp add: upt_conv_Cons map_Suc_upt del: upt_Suc)
  show ?case
    by (simp only: outputHexChunk_loop.simps Suc.IH m)
       (simp add: o_def add.assoc add.commute add.left_commute)
qed

text \<open>
  Every record: colon, count, address, type 00, the cells the call reads as two digits
  each, and a checksum byte that makes the sum of count, the two address bytes, the data
  and itself a multiple of 256.
\<close>

lemma hex_record_shape:
  "\<exists>cc. cc < 256
     \<and> outputHexChunk ob start sz fd =
         fd @ '':'' @ printf_x 2 sz @ printf_x 4 (as_unsigned start) @ ''00''
            @ concat (map (\<lambda>i. printf_x 2 (unat (buffer ob i))) (chunk_cells (start, sz)))
            @ printf_x 2 cc @ [CHR 0x0A]
     \<and> (int sz + drop_bit 8 (start AND 0xff00) mod 256 + (start AND 0xff) mod 256
          + sum_list (map (\<lambda>i. uint (buffer ob i)) (chunk_cells (start, sz))) + int cc) mod 256 = 0"
proof -
  define c0 where "c0 = int sz + drop_bit 8 (start AND 0xff00) mod 256 + (start AND 0xff) mod 256"
  define S where "S = sum_list (map (\<lambda>i. uint (buffer ob i)) (chunk_cells (start, sz)))"
  define D where "D = concat (map (\<lambda>i. printf_x 2 (unat (buffer ob i))) (chunk_cells (start, sz)))"
  define cc where "cc = nat ((- (c0 + S)) mod 256)"
  have cc: "cc < 256" by (simp add: cc_def nat_less_iff)
  have u: "as_unsigned ((NOT (c0 + S) + 1) AND 0xff) = cc"
    by (simp add: int_and_255 not_int_def as_unsigned_def cc_def)
  have z: "(c0 + S + int cc) mod 256 = 0"
    unfolding cc_def by (simp add: mod_add_right_eq)
  have loop: "outputHexChunk_loop ob start sz 0 (c0, f) = (c0 + S, f @ D)" for f
    unfolding outputHexChunk_loop_eq S_def D_def chunk_cells_def
    by (simp add: o_def)
  have eq: "outputHexChunk ob start sz fd =
         fd @ '':'' @ printf_x 2 sz @ printf_x 4 (as_unsigned start) @ ''00'' @ D
            @ printf_x 2 cc @ [CHR 0x0A]"
    unfolding outputHexChunk_def Let_def c0_def [symmetric] loop prod.case u
    by (simp only: append_assoc)
  have "cc < 256 \<and> outputHexChunk ob start sz fd =
         fd @ '':'' @ printf_x 2 sz @ printf_x 4 (as_unsigned start) @ ''00'' @ D
            @ printf_x 2 cc @ [CHR 0x0A] \<and> (c0 + S + int cc) mod 256 = 0"
    using cc eq z by (intro conjI)
  then show ?thesis
    unfolding c0_def S_def D_def by (rule exI)
qed

text \<open>
  Claim C7, as stated, fails on the letters of the line: \<^verbatim>\<open>outputHexChunk\<close> prints with
  \<^verbatim>\<open>%02x\<close>, whose digits above 9 are lower case, so the record for address 0, size 2
  and data 01 02 is not the line with the checksum written \<^verbatim>\<open>FB\<close>.
\<close>

theorem hex_record_uppercase_counterexample:
  "outputHexChunk example_record_output 0 2 [] \<noteq> '':020000000102FB'' @ [CHR 0x0A]
   \<and> outputHexChunk example_record_output 0 2 [] \<noteq> '':020000000102FB''"
  unfolding example_record_output_def by code_simp

text \<open>
  Claim C7, amended. For address 0, size 2 and data 01 02 the record written is the line
  \<^verbatim>\<open>:020000000102fb\<close> (lower-case digits, then a newline), its last byte being 0xFB
  as \<^verbatim>\<open>%02x\<close> prints it; and every record ends in a checksum byte such that count, high
  and low address byte, data bytes and checksum add up to 0 modulo 256.
\<close>

theorem hex_record_line_and_checksum:
  "outputHexChunk example_record_output 0 2 [] = '':020000000102fb'' @ [CHR 0x0A]
   \<and> printf_x 2 0xFB = ''fb''
   \<and> (\<exists>cc. cc < 256
        \<and> outputHexChunk ob start sz fd =
            fd @ '':'' @ printf_x 2 sz @ printf_x 4 (as_unsigned start) @ ''00''
               @ concat (map (\<lambda>i. printf_x 2 (unat (buffer ob i))) (chunk_cells (start, sz)))
               @ printf_x 2 cc @ [CHR 0x0A]
        \<and> (int sz + drop_bit 8 (start AND 0xff00) mod 256 + (start AND 0xff) mod 256
             + sum_list (map (\<lambda>i. uint (buffer ob i)) (chunk_cells (start, sz))) + int cc)
            mod 256 = 0)"
proof -
  have a: "outputHexChunk example_record_output 0 2 [] = '':020000000102fb'' @ [CHR 0x0A]"
    unfolding example_record_output_def by code_simp
  have b: "printf_x 2 0xFB = ''fb''"
    by code_simp
  show ?thesis
    using a b hex_record_shape [of ob start sz fd] by (intro conjI)
qed

section \<open>Intel HEX with fill value zero\<close>

declare outputHex_loop.simps [simp del]

lemma chunk_cells_upto: "chunk_cells (s, n) = [s..s + int n - 1]"
proof (induction n)
  case 0
  then show ?case by (simp add: chunk_cells_def)
next
  case (Suc n)
  have "[s..s + int (Suc n) - 1] = [s..s + int n - 1] @ [s + int n]"
    using upto_rec2 [of s "s + int n"] by simp
  with Suc show ?case by (simp add: chunk_cells_def)
qed

lemma upto_glue: "a \<le> b \<Longrightarrow> b \<le> c + 1 \<Longrightarrow> [a..b - 1] @ [b..c] = [a..c]"
proof (cases "b = c + 1")
  case True
  then show ?thesis by simp
next
  case False
  assume "a \<le> b" "b \<le> c + 1"
  with False show ?thesis using upto_split1 [of a b c] by simp
qed

text \<open>
  The loop with fill value zero, entered with no empty cells counted and at most 64 cells
  pending: it ends at \<open>amount\<close>, has made calls of 64 cells each that cover the cells
  from the old to the new \<^verbatim>\<open>chunkStart\<close>, and leaves at most 64 cells pending.
\<close>

lemma outputHex_loop_fill0:
  assumes f: "fill_value ob = 0"
  shows "chunkStart \<le> i \<Longrightarrow> i \<le> chunkStart + 64 \<Longrightarrow> i \<le> amount \<Longrightarrow>
     \<exists>cs new. outputHex_loop ob amount chunkStart 0 i calls = (cs, amount, calls @ new)
       \<and> concat (map chunk_cells new) = [chunkStart..cs - 1]
       \<and> (\<forall>c\<in>set new. snd c = 64)
       \<and> chunkStart \<le> cs \<and> cs \<le> amount \<and> amount \<le> cs + 64
       \<and> (cs = amount \<longrightarrow> chunkStart = amount)"
proof (induction "nat (amount - i)" arbitrary: chunkStart i calls)
  case 0
  then have "i = amount" by simp
  then have "outputHex_loop ob amount chunkStart 0 i calls = (chunkStart, amount, calls @ [])"
    by (subst outputHex_loop.simps) simp
  moreover have "concat (map chunk_cells []) = [chunkStart..chunkStart - 1]" by simp
  ultimately show ?case using 0 \<open>i = amount\<close> by fastforce
next
  case (Suc n)
  then have lt: "i < amount" by simp
  have n: "n = nat (amount - (i + 1))" using Suc.hyps(2) by simp
  show ?case
  proof (cases "i - chunkStart \<ge> 64")
    case True
    then have i: "i = chunkStart + 64" using Suc.prems by simp
    have d: "i - chunkStart = 64" using i by simp
    have step: "outputHex_loop ob amount chunkStart 0 i calls =
                outputHex_loop ob amount i 0 (i + 1) (calls @ [(chunkStart, 64)])"
      by (subst outputHex_loop.simps) (simp add: f lt d maxEmpty_def maxChunkSize_def Let_def)
    from Suc.hyps(1) [OF n, of i "calls @ [(chunkStart, 64)]"] lt
    obtain cs new where
      r: "outputHex_loop ob amount i 0 (i + 1) (calls @ [(chunkStart, 64)])
            = (cs, amount, (calls @ [(chunkStart, 64)]) @ new)"
      and c: "concat (map chunk_cells new) = [i..cs - 1]"
      and a: "\<forall>c\<in>set new. snd c = 64"
      and b: "i \<le> cs" "cs \<le> amount" "amount \<le> cs + 64" "cs = amount \<longrightarrow> i = amount"
      by auto
    have "concat (map chunk_cells ((chunkStart, 64) # new)) = [chunkStart..cs - 1]"
      using upto_glue [of chunkStart i "cs - 1"] b(1) i c
      by (simp add: chunk_cells_upto add.commute)
    moreover have "outputHex_loop ob amount chunkStart 0 i calls
                     = (cs, amount, calls @ ((chunkStart, 64) # new))"
      using step r by simp
    moreover have "\<forall>c\<in>set ((chunkStart, 64) # new). snd c = 64" using a by simp
    ultimately show ?thesis
      using b lt i by (intro exI [of _ cs] exI [of _ "(chunkStart, 64) # new"]) auto
  next
    case False
    have step: "outputHex_loop ob amount chunkStart 0 i calls =
                outputHex_loop ob amount chunkStart 0 (i + 1) calls"
      using False
      by (subst outputHex_loop.simps) (simp add: f lt maxEmpty_def maxChunkSize_def Let_def)
    from Suc.hyps(1) [OF n, of chunkStart calls] False Suc.prems lt
    obtain cs new where
      r: "outputHex_loop ob amount chunkStart 0 (i + 1) calls = (cs, amount, calls @ new)"
      and c: "concat (map chunk_cells new) = [chunkStart..cs - 1]"
      and a: "\<forall>c\<in>set new. snd c = 64"
      and b: "chunkStart \<le> cs" "cs \<le> amount" "amount \<le> cs + 64"
             "cs = amount \<longrightarrow> chunkStart = amount"
      by auto
    show ?thesis
      using step r c a b by (intro exI [of _ cs] exI [of _ new]) auto
  qed
qed

text \<open>
  With fill value 0 the cells read by the calls of \<^verbatim>\<open>outputHexChunk\<close> are, in order,
  exactly the cells of the range; no call is for zero cells or for more than 64.
\<close>

lemma outputHex_calls_fill0:
  assumes "fill_value ob = 0" and "start \<le> amount"
  shows "concat (map chunk_cells (outputHex_calls ob start amount)) = [start..amount - 1]
         \<and> (\<forall>c\<in>set (outputHex_calls ob start amount). 0 < snd c \<and> snd c \<le> 64)"
proof -
  from outputHex_loop_fill0 [OF assms(1), of start start amount "[]"] assms(2)
  obtain cs new where
    r: "outputHex_loop ob amount start 0 start [] = (cs, amount, new)"
    and c: "concat (map chunk_cells new) = [start..cs - 1]"
    and a: "\<forall>c\<in>set new. snd c = 64"
    and b: "start \<le> cs" "cs \<le> amount" "amount \<le> cs + 64" "cs = amount \<longrightarrow> start = amount"
    by auto
  show ?thesis
  proof (cases "cs = amount")
    case True
    then show ?thesis
      using r c a by (simp add: outputHex_calls_def)
  next
    case False
    then have m: "nat ((amount - cs) mod 256) = nat (amount - cs)" and p: "0 < amount - cs"
      using b by auto
    have calls: "outputHex_calls ob start amount = new @ [(cs, nat (amount - cs))]"
      using r m p by (simp add: outputHex_calls_def Let_def)
    have "concat (map chunk_cells (new @ [(cs, nat (amount - cs))])) = [start..amount - 1]"
      using c upto_glue [of start cs "amount - 1"] b p
      by (simp add: chunk_cells_upto)
    then show ?thesis
      using calls a b p by auto
  qed
qed

text \<open>Each call of \<^verbatim>\<open>outputHexChunk\<close> appends the data record of the cells it is called for.\<close>

lemma outputHexChunk_record:
  "outputHexChunk ob start sz fd = fd @ hex_data_record ob (start, sz)"
proof -
  define c0 where "c0 = int sz + drop_bit 8 (start AND 0xff00) mod 256 + (start AND 0xff) mod 256"
  define S where "S = sum_list (map (\<lambda>i. uint (buffer ob i)) (chunk_cells (start, sz)))"
  define D where "D = concat (map (\<lambda>i. printf_x 2 (unat (buffer ob i))) (chunk_cells (start, sz)))"
  have u: "as_unsigned ((NOT (c0 + S) + 1) AND 0xff) = nat ((- (c0 + S)) mod 256)"
    by (simp add: int_and_255 not_int_def as_unsigned_def)
  have loop: "outputHexChunk_loop ob start sz 0 (c0, f) = (c0 + S, f @ D)" for f
    unfolding outputHexChunk_loop_eq S_def D_def chunk_cells_def
    by (simp add: o_def)
  have "outputHexChunk ob start sz fd =
         fd @ '':'' @ printf_x 2 sz @ printf_x 4 (as_unsigned start) @ ''00'' @ D
            @ printf_x 2 (nat ((- (c0 + S)) mod 256)) @ [CHR 0x0A]"
    unfolding outputHexChunk_def Let_def c0_def [symmetric] loop prod.case u
    by (simp only: append_assoc)
  then show ?thesis
    by (simp add: hex_data_record_def record_data_def record_checksum_def c0_def S_def D_def)
qed

lemma foldl_outputHexChunk:
  "foldl (\<lambda>f (chunkStart, sz). outputHexChunk ob chunkStart sz f) fd calls
     = fd @ concat (map (hex_data_record ob) calls)"
  by (induction calls arbitrary: fd) (auto simp: outputHexChunk_record)

lemma outputHex_records:
  "outputHex ob start amount fd =
     fd @ concat (map (hex_data_record ob) (outputHex_calls ob start amount)) @ '':00000001ff''"
  by (simp add: outputHex_def foldl_outputHexChunk)

lemma concat_record_data:
  "concat (map (record_data ob) calls) =
     concat (map (\<lambda>i. printf_x 2 (unat (buffer ob i))) (concat (map chunk_cells calls)))"
  by (induction calls) (simp_all add: record_data_def)

text \<open>
  Claim C10. With fill value 0 (and a range that is not reversed), whatever the buffer
  holds, runs of zero bytes of any length included: what \<^verbatim>\<open>outputHex\<close> writes to the
  file is a sequence of data records followed by the end-of-file record; the cells of
  these records are, in order, exactly the cells \<open>start, ..., amount - 1\<close> of the range;
  the data fields of the records, one after the other, are the two digits of every byte of
  the range in order; and every record has at least 1 and at most 64 data bytes. So no
  byte of the range is skipped.
\<close>

theorem hex_fill_zero_writes_every_byte:
  assumes "fill_value ob = 0" and "start \<le> amount"
  shows "outputHex ob start amount fd =
           fd @ concat (map (hex_data_record ob) (outputHex_calls ob start amount))
              @ '':00000001ff''
         \<and> concat (map chunk_cells (outputHex_calls ob start amount)) = [start..amount - 1]
         \<and> concat (map (record_data ob) (outputHex_calls ob start amount))
             = concat (map (\<lambda>i. printf_x 2 (unat (buffer ob i))) [start..amount - 1])
         \<and> (\<forall>c\<in>set (outputHex_calls ob start amount). 0 < snd c \<and> snd c \<le> 64)"
  using outputHex_calls_fill0 [OF assms]
  by (simp add: outputHex_records concat_record_data)

theorem hex_fill_zero_writes_every_byte_witness:
  "fill_value zero_output = 0
   \<and> outputHex zero_output 0 40 []
       = '':28000000'' @ replicate 80 (CHR ''0'') @ ''d8'' @ [CHR 0x0A] @ '':00000001ff''
   \<and> concat (map chunk_cells (outputHex_calls zero_output 0 40)) = [0..40 - 1]
   \<and> concat (map (record_data zero_output) (outputHex_calls zero_output 0 40))
       = concat (map (\<lambda>i. printf_x 2 (unat (buffer zero_output i))) [0..40 - 1])"
proof -
  have f: "fill_value zero_output = 0"
    by (simp add: zero_output_def)
  have l: "(0::int) \<le> 40" by simp
  have t: "outputHex zero_output 0 40 []
       = '':28000000'' @ replicate 80 (CHR ''0'') @ ''d8'' @ [CHR 0x0A] @ '':00000001ff''"
    unfolding zero_output_def by code_simp
  note h = hex_fill_zero_writes_every_byte [OF f l, of "[]"]
  from h have c: "concat (map chunk_cells (outputHex_calls zero_output 0 40)) = [0..40 - 1]"
    and d: "concat (map (record_data zero_output) (outputHex_calls zero_output 0 40))
       = concat (map (\<lambda>i. printf_x 2 (unat (buffer zero_output i))) [0..40 - 1])"
    by blast+
  from f t c d show ?thesis by (intro conjI)
qed

section \<open>Entering and leaving offset assembly\<close>


lemma and_then_Inr [simp]: "and_then (Inr x) f = f x"
  by (simp add: and_then_def)

lemma and_then_Inl [simp]: "and_then (Inl x) f = Inl x"
  by (simp add: and_then_def)

lemma and_then_assoc: "and_then (and_then m f) g = and_then m (\<lambda>x. and_then (f x) g)"
  by (cases m) simp_all










section \<open>Writing while output is disabled\<close>

lemma border_crossed_Inr:
  "border_crossed e off w = Inr w1 \<Longrightarrow>
     off < bufsize (out w)
     \<and> write_idx (out w1) = write_idx (out w)
     \<and> lowest_written (out w1) = lowest_written (out w)
     \<and> highest_written (out w1) = highest_written (out w)
     \<and> buffer (out w1) = buffer (out w)
     \<and> xor_value (out w1) = xor_value (out w)
     \<and> bufsize (out w1) = bufsize (out w)
     \<and> ring (out w1) = ring (out w)
     \<and> Output_byte w1 = Output_byte w
     \<and> report_state w1 = report_state w
     \<and> pc_undefined_reports w1 = pc_undefined_reports w"
  by (auto simp: border_crossed_def find_segment_max_def Throw_error_def Throw_warning_def
      Throw_serious_error_def Let_def pc_undefined_reports_def exception_pc_undefined_def
      split: if_splits option.splits)

lemma real_output_Inr:
  "real_output e b w = Inr w' \<Longrightarrow>
     write_idx (out w') = write_idx (out w) + 1
     \<and> buffer (out w') =
         (buffer (out w))(write_idx (out w) := word_of_int (b AND 0xff) XOR xor_value (out w))
     \<and> lowest_written (out w') = min (lowest_written (out w)) (write_idx (out w))
     \<and> highest_written (out w') = max (highest_written (out w)) (write_idx (out w))
     \<and> xor_value (out w') = xor_value (out w)
     \<and> bufsize (out w') = bufsize (out w)
     \<and> ring (out w') = ring (out w)
     \<and> Output_byte w' = Output_byte w
     \<and> pc_undefined_reports w' = pc_undefined_reports w"
proof -
  assume r: "real_output e b w = Inr w'"
  show ?thesis
  proof (cases "write_idx (out w) > segment_max (out w)")
    case False
    with r show ?thesis
      by (auto simp: real_output_def Let_def report_binary_def pc_undefined_reports_def
          split: if_splits)
  next
    case True
    with r obtain w1 where b: "border_crossed e (write_idx (out w)) w = Inr w1"
      by (cases "border_crossed e (write_idx (out w)) w") (auto simp: real_output_def)
    note f = border_crossed_Inr [OF b]
    from r True b f show ?thesis
      by (auto simp: real_output_def Let_def report_binary_def pc_undefined_reports_def
          split: if_splits)
  qed
qed


lemma call_Output_byte_real: "Output_byte w = fn_real_output \<Longrightarrow> call_Output_byte e b w = real_output e b w"
  by simp

lemma call_Output_byte_no_output:
  "Output_byte w = fn_no_output \<Longrightarrow>
     call_Output_byte e b w =
       real_output e b ((Throw_error exception_pc_undefined w)\<lparr>Output_byte := fn_real_output\<rparr>)"
  by simp

lemma call_Output_byte_Inr:
  assumes "call_Output_byte e b w = Inr w'"
  shows "write_idx (out w') = write_idx (out w) + 1
     \<and> buffer (out w') =
         (buffer (out w))(write_idx (out w) := word_of_int (b AND 0xff) XOR xor_value (out w))
     \<and> lowest_written (out w') = min (lowest_written (out w)) (write_idx (out w))
     \<and> highest_written (out w') = max (highest_written (out w)) (write_idx (out w))
     \<and> Output_byte w' = fn_real_output
     \<and> pc_undefined_reports w' =
         pc_undefined_reports w + (if Output_byte w = fn_no_output then 1 else 0)"
proof (cases "Output_byte w")
  case fn_null
  with assms show ?thesis by simp
next
  case fn_no_output
  let ?w1 = "(Throw_error exception_pc_undefined w)\<lparr>Output_byte := fn_real_output\<rparr>"
  from assms fn_no_output have "real_output e b ?w1 = Inr w'"
    by (simp add: call_Output_byte_no_output)
  from real_output_Inr [OF this] fn_no_output show ?thesis
    by (simp add: Throw_error_def pc_undefined_reports_def)
next
  case fn_real_output
  with assms have "real_output e b w = Inr w'" by simp
  from real_output_Inr [OF this] fn_real_output show ?thesis by simp
qed

lemma Output_bytes_enabled:
  "Output_byte w = fn_real_output \<Longrightarrow> Output_bytes e bs w = Inr w' \<Longrightarrow>
     Output_byte w' = fn_real_output \<and> pc_undefined_reports w' = pc_undefined_reports w"
proof (induction bs arbitrary: w)
  case Nil
  then show ?case by simp
next
  case (Cons b bs)
  from Cons.prems(2) obtain w1 where s: "call_Output_byte e b w = Inr w1"
    and t: "Output_bytes e bs w1 = Inr w'"
    by (cases "call_Output_byte e b w") (simp_all del: call_Output_byte.simps)
  from call_Output_byte_Inr [OF s] Cons.prems(1)
  have "Output_byte w1 = fn_real_output" "pc_undefined_reports w1 = pc_undefined_reports w"
    by simp_all
  with Cons.IH [OF _ t] show ?case by simp
qed

text \<open>
  Claim C1. A call through \<^verbatim>\<open>Output_byte\<close> with any value while the pointer holds
  \<^verbatim>\<open>no_output\<close> (and the write index has not passed the segment limit, as is the case
  from \<^verbatim>\<open>Output_passinit\<close> on) returns; it has reported exactly one diagnostic, "PC
  undefined"; the pointer then holds \<^verbatim>\<open>real_output\<close>; the low byte of that value, xor-ed
  with the xor value, is stored at the write index; and however many more bytes are
  written afterwards, the number of "PC undefined" reports stays one more than before.
\<close>

theorem no_output_reports_once:
  assumes "Output_byte w = fn_no_output" and "write_idx (out w) \<le> segment_max (out w)"
  shows "\<exists>w1. call_Output_byte e b w = Inr w1
       \<and> diagnostics w1 = diagnostics w @ [Error exception_pc_undefined]
       \<and> Output_byte w1 = fn_real_output
       \<and> buffer (out w1) =
           (buffer (out w))(write_idx (out w) := word_of_int (b AND 0xff) XOR xor_value (out w))
       \<and> (\<forall>bs w2. Output_bytes e bs w1 = Inr w2 \<longrightarrow>
             pc_undefined_reports w2 = pc_undefined_reports w + 1)"
proof -
  let ?w0 = "(Throw_error exception_pc_undefined w)\<lparr>Output_byte := fn_real_output\<rparr>"
  obtain w1 where r: "real_output e b ?w0 = Inr w1"
    and d: "diagnostics w1 = diagnostics w @ [Error exception_pc_undefined]"
    using assms(2)
    by (simp add: real_output_def Let_def Throw_error_def report_binary_def)
  have c: "call_Output_byte e b w = Inr w1"
    using assms(1) r by (simp add: call_Output_byte_no_output)
  note f = call_Output_byte_Inr [OF c]
  have "pc_undefined_reports w2 = pc_undefined_reports w + 1"
    if "Output_bytes e bs w1 = Inr w2" for bs w2
    using Output_bytes_enabled [OF _ that] f assms(1) by simp
  with c d f show ?thesis by blast
qed

theorem no_output_reports_once_witness:
  "\<exists>w1. call_Output_byte example_env 0x41 example_state = Inr w1
       \<and> diagnostics w1 = [Error exception_pc_undefined]
       \<and> Output_byte w1 = fn_real_output
       \<and> buffer (out w1) 0 = 0x41"
proof -
  have a: "Output_byte example_state = fn_no_output"
    and b: "write_idx (out example_state) \<le> segment_max (out example_state)"
    and c: "diagnostics example_state = []" "write_idx (out example_state) = 0"
           "xor_value (out example_state) = 0"
    by (simp_all add: example_state_def Output_passinit_def Output_init_def Let_def
        fill_completely_def static_state_def)
  from no_output_reports_once [OF a b, of example_env "0x41"]
  obtain w1 where "call_Output_byte example_env 0x41 example_state = Inr w1"
    "diagnostics w1 = diagnostics example_state @ [Error exception_pc_undefined]"
    "Output_byte w1 = fn_real_output"
    "buffer (out w1) = (buffer (out example_state))
       (write_idx (out example_state) := word_of_int (0x41 AND 0xff) XOR xor_value (out example_state))"
    by blast
  then show ?thesis
    using c by (intro exI [of _ w1]) simp
qed

section \<open>Stored indices and the watermarks\<close>

lemma Output_bytes_Cons_Inr:
  "Output_bytes e (b # bs) w = Inr w' \<Longrightarrow>
     \<exists>w1. call_Output_byte e b w = Inr w1 \<and> Output_bytes e bs w1 = Inr w'"
  by (cases "call_Output_byte e b w") (simp_all del: call_Output_byte.simps)

lemma Output_bytes_watermarks_mono:
  "Output_bytes e bs w = Inr w' \<Longrightarrow>
     lowest_written (out w') \<le> lowest_written (out w)
     \<and> highest_written (out w) \<le> highest_written (out w')"
proof (induction bs arbitrary: w)
  case Nil
  then show ?case by simp
next
  case (Cons b bs)
  from Output_bytes_Cons_Inr [OF Cons.prems] obtain w1
    where s: "call_Output_byte e b w = Inr w1" and t: "Output_bytes e bs w1 = Inr w'"
    by blast
  from call_Output_byte_Inr [OF s] Cons.IH [OF t] show ?case by simp
qed

lemma stored_indices_within:
  "Output_bytes e bs w = Inr w' \<Longrightarrow> i \<in> set (stored_indices e bs w) \<Longrightarrow>
     lowest_written (out w') \<le> i \<and> i \<le> highest_written (out w')"
proof (induction bs arbitrary: w)
  case Nil
  then show ?case by simp
next
  case (Cons b bs)
  from Output_bytes_Cons_Inr [OF Cons.prems(1)] obtain w1
    where s: "call_Output_byte e b w = Inr w1" and t: "Output_bytes e bs w1 = Inr w'"
    by blast
  from Cons.prems(2) s have "i = write_idx (out w) \<or> i \<in> set (stored_indices e bs w1)"
    by (simp del: call_Output_byte.simps)
  then show ?case
  proof
    assume "i = write_idx (out w)"
    with call_Output_byte_Inr [OF s] Output_bytes_watermarks_mono [OF t]
    show ?thesis by simp
  next
    assume "i \<in> set (stored_indices e bs w1)"
    with Cons.IH [OF t] show ?thesis by simp
  qed
qed

lemma not_stored_unchanged:
  "Output_bytes e bs w = Inr w' \<Longrightarrow> i \<notin> set (stored_indices e bs w) \<Longrightarrow>
     buffer (out w') i = buffer (out w) i"
proof (induction bs arbitrary: w)
  case Nil
  then show ?case by simp
next
  case (Cons b bs)
  from Output_bytes_Cons_Inr [OF Cons.prems(1)] obtain w1
    where s: "call_Output_byte e b w = Inr w1" and t: "Output_bytes e bs w1 = Inr w'"
    by blast
  from Cons.prems(2) s have n: "i \<noteq> write_idx (out w)" "i \<notin> set (stored_indices e bs w1)"
    by (simp_all del: call_Output_byte.simps)
  from Cons.IH [OF t n(2)] call_Output_byte_Inr [OF s] n(1) show ?case by simp
qed

lemma length_stored_indices:
  "Output_bytes e bs w = Inr w' \<Longrightarrow> length (stored_indices e bs w) = length bs"
proof (induction bs arbitrary: w)
  case Nil
  then show ?case by simp
next
  case (Cons b bs)
  from Output_bytes_Cons_Inr [OF Cons.prems(1)] obtain w1
    where s: "call_Output_byte e b w = Inr w1" and t: "Output_bytes e bs w1 = Inr w'"
    by blast
  with Cons.IH [OF t] show ?case by (simp del: call_Output_byte.simps)
qed

text \<open>
  Claim C3. Whatever the state a sequence of byte writes starts in (the state after
  \<^verbatim>\<open>Output_passinit\<close> included), if no write of the sequence aborts, then every index
  the sequence has stored to lies between \<^verbatim>\<open>lowest_written\<close> and \<^verbatim>\<open>highest_written\<close>
  as they stand after the sequence, and every index outside that interval has not been
  stored to: its buffer cell is what it was before the sequence.
\<close>

theorem stores_within_watermarks:
  "Output_bytes e bs w = Inr w' \<Longrightarrow>
     (\<forall>i \<in> set (stored_indices e bs w).
         lowest_written (out w') \<le> i \<and> i \<le> highest_written (out w'))
     \<and> (\<forall>i. \<not> (lowest_written (out w') \<le> i \<and> i \<le> highest_written (out w')) \<longrightarrow>
            i \<notin> set (stored_indices e bs w) \<and> buffer (out w') i = buffer (out w) i)"
  using stored_indices_within not_stored_unchanged by blast

theorem stores_within_watermarks_witness:
  "\<exists>w'. Output_bytes example_env [1, 2, 3] example_state = Inr w'
     \<and> stored_indices example_env [1, 2, 3] example_state = [0, 1, 2]
     \<and> lowest_written (out w') \<le> 0 \<and> 2 \<le> highest_written (out w')
     \<and> buffer (out w') 5 = buffer (out example_state) 5"
proof -
  have "\<exists>w'. Output_bytes example_env [1, 2, 3] example_state = Inr w'
     \<and> stored_indices example_env [1, 2, 3] example_state = [0, 1, 2]
     \<and> lowest_written (out w') = 0 \<and> highest_written (out w') = 2"
    by (simp add: example_state_def Output_passinit_def Output_init_def Let_def
        fill_completely_def static_state_def example_env_def real_output_def
        Throw_error_def report_binary_def)
  then obtain w' where r: "Output_bytes example_env [1, 2, 3] example_state = Inr w'"
    and s: "stored_indices example_env [1, 2, 3] example_state = [0, 1, 2]"
    and l: "lowest_written (out w') = 0" and h: "highest_written (out w') = 2"
    by blast
  from stores_within_watermarks [OF r] s l h
  have "lowest_written (out w') \<le> 0" "2 \<le> highest_written (out w')"
    "buffer (out w') 5 = buffer (out example_state) 5"
    by auto
  with r s show ?thesis by blast
qed


section \<open>Filling the buffer to its end\<close>

lemma find_segment_max_walk_mem:
  "find_segment_max_walk a xs = Some t \<Longrightarrow> t \<in> set xs"
  by (induction xs) (auto split: if_splits)

lemma find_segment_max_bound:
  "ring_within (out w) \<Longrightarrow>
     segment_max (out (find_segment_max a w)) \<le> bufsize (out w) - 1
     \<and> bufsize (out (find_segment_max a w)) = bufsize (out w)
     \<and> ring (out (find_segment_max a w)) = ring (out w)
     \<and> write_idx (out (find_segment_max a w)) = write_idx (out w)
     \<and> Output_byte (find_segment_max a w) = Output_byte w"
  by (auto simp: find_segment_max_def ring_within_def Let_def split: option.splits
      dest!: find_segment_max_walk_mem)

lemma border_crossed_writable:
  "writable w \<Longrightarrow> off < bufsize (out w) \<Longrightarrow>
     \<exists>w1. border_crossed e off w = Inr w1 \<and> writable w1"
proof -
  assume w: "writable w" and o: "off < bufsize (out w)"
  let ?m = "''Segment reached another one, overwriting it.''"
  have a: "writable (Throw_error ?m w)" "writable (Throw_warning ?m w)"
    using w by (simp_all add: writable_def Throw_error_def Throw_warning_def ring_within_def)
  have "writable (find_segment_max a v)" if "writable v" for a v
    using that find_segment_max_bound [of v a] by (simp add: writable_def ring_within_def)
  with a w o show ?thesis
    by (simp add: border_crossed_def Let_def)
qed

lemma real_output_writable:
  assumes "writable w" and "write_idx (out w) < bufsize (out w)"
  shows "\<exists>w'. real_output e b w = Inr w' \<and> writable w'"
proof -
  obtain w1 where o: "(if write_idx (out w) > segment_max (out w)
                       then border_crossed e (write_idx (out w)) w else Inr w) = Inr w1"
    and w1: "writable w1"
    using border_crossed_writable [OF assms, of e] assms(1) by (cases "write_idx (out w) > segment_max (out w)") auto
  from w1 show ?thesis
    unfolding real_output_def o
    by (simp add: Let_def report_binary_def writable_def ring_within_def)
qed

lemma real_output_too_much:
  "segment_max (out w) \<le> bufsize (out w) - 1 \<Longrightarrow> bufsize (out w) \<le> write_idx (out w) \<Longrightarrow>
     real_output e b w = Inl (Serious_error ''Produced too much code.'')"
  by (simp add: real_output_def border_crossed_def Throw_serious_error_def)

lemma Output_bytes_writable:
  "writable w \<Longrightarrow> write_idx (out w) + int (length bs) \<le> bufsize (out w) \<Longrightarrow>
     \<exists>w'. Output_bytes e bs w = Inr w' \<and> writable w'
          \<and> write_idx (out w') = write_idx (out w) + int (length bs)
          \<and> bufsize (out w') = bufsize (out w)"
proof (induction bs arbitrary: w)
  case Nil
  then show ?case by simp
next
  case (Cons b bs)
  from Cons.prems have lt: "write_idx (out w) < bufsize (out w)" by simp
  from real_output_writable [OF Cons.prems(1) lt, of e b]
  obtain w1 where r: "real_output e b w = Inr w1" and w1: "writable w1" by blast
  have c: "call_Output_byte e b w = Inr w1"
    using r Cons.prems(1) by (simp add: writable_def)
  from real_output_Inr [OF r]
  have i: "write_idx (out w1) = write_idx (out w) + 1" "bufsize (out w1) = bufsize (out w)"
    by simp_all
  from Cons.IH [OF w1, of ] Cons.prems(2) i
  obtain w' where "Output_bytes e bs w1 = Inr w'" "writable w'"
    "write_idx (out w') = write_idx (out w1) + int (length bs)"
    "bufsize (out w') = bufsize (out w1)"
    by auto
  with c i show ?case by (simp del: call_Output_byte.simps)
qed

lemma Output_bytes_append:
  "Output_bytes e (bs @ cs) w = and_then (Output_bytes e bs w) (Output_bytes e cs)"
proof (induction bs arbitrary: w)
  case Nil
  then show ?case by simp
next
  case (Cons b bs)
  then show ?case
    by (cases "call_Output_byte e b w") (simp_all del: call_Output_byte.simps)
qed

lemma set_pc_0_writable:
  assumes "0 < bufsize (out w0)" and "ring_within (out w0)"
  shows "\<exists>w. vcpu_set_pc e 0 flags (Output_passinit w0) = Inr w \<and> writable w
           \<and> write_idx (out w) = 0 \<and> bufsize (out w) = bufsize (out w0)"
proof -
  let ?p = "Output_passinit w0"
  let ?q = "?p\<lparr>CPU_state := (CPU_state ?p)\<lparr>
              pc := (pc (CPU_state ?p))\<lparr>num_intval := 0, num_ntype := NUMTYPE_INT,
                                        num_addr_refs := 1\<rparr>\<rparr>\<rparr>"
  have s: "vcpu_set_pc e 0 flags ?p = Inr (Output_start_segment e 0 flags ?q)"
    by (simp add: vcpu_set_pc_def Output_passinit_def Let_def)
  have en: "Output_end_segment e ?q = ?q"
    by (simp add: Output_end_segment_def Output_passinit_def)
  let ?r = "?q\<lparr>out := (out ?q)\<lparr>write_idx := 0, segment_start := 0, segment_flags := flags\<rparr>,
               Output_byte := fn_real_output\<rparr>"
  have r: "writable ?r" "write_idx (out ?r) = 0" "bufsize (out ?r) = bufsize (out w0)"
    using assms by (simp_all add: writable_def Output_passinit_def ring_within_def)
  have ck: "writable (check_segment e a v) \<and> write_idx (out (check_segment e a v)) = write_idx (out v)
            \<and> bufsize (out (check_segment e a v)) = bufsize (out v)" if "writable v" for a v
    using that
    by (simp add: check_segment_def Let_def writable_def ring_within_def Throw_error_def
        Throw_warning_def)
  have fm: "writable (find_segment_max a v) \<and> write_idx (out (find_segment_max a v)) = write_idx (out v)
            \<and> bufsize (out (find_segment_max a v)) = bufsize (out v)" if "writable v" for a v
    using that find_segment_max_bound [of v a] by (simp add: writable_def ring_within_def)
  have "writable (Output_start_segment e 0 flags ?q)
        \<and> write_idx (out (Output_start_segment e 0 flags ?q)) = 0
        \<and> bufsize (out (Output_start_segment e 0 flags ?q)) = bufsize (out w0)"
    unfolding Output_start_segment_def en Let_def
    using r ck [OF r(1)] fm [OF r(1)] fm [of "check_segment e 0 ?r"]
    by (simp add: Output_passinit_def)
  with s show ?thesis by simp
qed


text \<open>
  Claim C2. After \<^verbatim>\<open>Output_passinit\<close> and \<^verbatim>\<open>vcpu_set_pc\<close> to 0 (the write index is
  then 0), on a buffer of positive size and with no recorded segment starting beyond the
  buffer: writing as many bytes as the buffer has cells returns without abort, as does
  every shorter run of them, and writing any one byte more aborts with the serious error
  "Produced too much code.".
\<close>

theorem capacity_bytes_then_fatal:
  assumes "0 < bufsize (out w0)"
    and "\<forall>s\<in>set (ring (out w0)). seg_start s \<le> bufsize (out w0)"
    and "int (length bs) = bufsize (out w0)"
  shows "\<exists>w w'. vcpu_set_pc e 0 flags (Output_passinit w0) = Inr w
           \<and> write_idx (out w) = 0
           \<and> Output_bytes e bs w = Inr w'
           \<and> (\<forall>k. \<exists>v. Output_bytes e (take k bs) w = Inr v)
           \<and> (\<forall>b. Output_bytes e (bs @ [b]) w = Inl (Serious_error ''Produced too much code.''))"
proof -
  have rw: "ring_within (out w0)"
    using assms(2) by (simp add: ring_within_def)
  from set_pc_0_writable [OF assms(1) rw, of e flags]
  obtain w where s: "vcpu_set_pc e 0 flags (Output_passinit w0) = Inr w" and w: "writable w"
    and i: "write_idx (out w) = 0" and b: "bufsize (out w) = bufsize (out w0)"
    by blast
  from Output_bytes_writable [OF w, of bs e] assms(3) i b
  obtain w' where r: "Output_bytes e bs w = Inr w'" and w': "writable w'"
    and i': "write_idx (out w') = bufsize (out w')"
    by auto
  have "Output_bytes e (bs @ [c]) w = Inl (Serious_error ''Produced too much code.'')" for c
    using r w' i' real_output_too_much [of w' e c]
    by (simp add: Output_bytes_append writable_def)
  moreover have "\<exists>v. Output_bytes e (take k bs) w = Inr v" for k
  proof -
    have "write_idx (out w) + int (length (take k bs)) \<le> bufsize (out w)"
      using assms(3) i b by simp
    from Output_bytes_writable [OF w this, of e] show ?thesis by blast
  qed
  ultimately show ?thesis using s i r by blast
qed

theorem capacity_bytes_then_fatal_witness:
  "\<exists>w w'. vcpu_set_pc example_env 0 0 example_state = Inr w
           \<and> Output_bytes example_env (replicate 65536 0x41) w = Inr w'
           \<and> Output_bytes example_env (replicate 65536 0x41 @ [0x42]) w
               = Inl (Serious_error ''Produced too much code.'')"
proof -
  let ?w0 = "Output_init example_env (- 1) False static_state"
  have a: "0 < bufsize (out ?w0)" and c: "int (length (replicate 65536 (0x41::int))) = bufsize (out ?w0)"
    and r: "\<forall>s\<in>set (ring (out ?w0)). seg_start s \<le> bufsize (out ?w0)"
    by (simp_all add: Output_init_def Let_def fill_completely_def)
  from capacity_bytes_then_fatal [OF a r c, of example_env 0]
  show ?thesis
    unfolding example_state_def by blast
qed

end
